theory Spec2Isabelle
  imports Main "HOL-Library.Word"
begin

section \<open>The conversation orchestrator of \<open>src/index.tsx\<close>\<close>

text \<open>
  The component \<open>App\<close> keeps its state in React state cells and in refs, and reacts to
  clicks, to the events of the speech recogniser and of the media recorder, and to the
  completion of the promises it awaits. Every handler runs to completion on the event loop,
  so a handler is a function from state to state, and every \<open>await\<close> cuts an async
  function into the part before it and a continuation that a later event runs.

  A handler reads a state cell through the closure of the render that made it, not from the
  cell. The click handlers and the \<open>disabled\<close> attributes are those of the last render
  (field \<open>rendered\<close>). The handlers of the recogniser are those of the last render in which
  \<open>isListening\<close> or \<open>mode\<close>, the dependencies of the effect that registers them, had
  changed (field \<open>registered\<close>). A render is an event of its own, so any number of events
  may be handled between a state update and the render that shows it. Updates written as
  functions of the previous value, and refs, read the current value.

  What the browser decides is an input of the event: the reading of \<open>Date.now()\<close>,
  whether \<open>getUserMedia\<close> grants a stream, whether a constructor or a \<open>start()\<close>
  throws, and what the translation service answers.
\<close>

subsection \<open>Data\<close>

text \<open>A JavaScript string is a sequence of UTF-16 code units.\<close>

type_synonym jsstring = "16 word list"

text \<open>The string literals of the source are ASCII.\<close>

definition js :: "string \<Rightarrow> jsstring" where
  "js t = map of_char t"

datatype Language = JaJP | ZhTW

datatype Mode = TurnTaking | Continuous

text \<open>\<open>translated\<close> is \<open>None\<close> for the source's \<open>null\<close>; \<open>entryId\<close> is the field \<open>id\<close>.\<close>

record LogEntry =
  entryId :: int
  original :: jsstring
  translated :: "jsstring option"
  lang :: Language

text \<open>
  A recording keeps its \<open>id\<close> and its blob (the sizes of the chunks it was made from);
  the object URL, the duration string and the display name are presentation data.
\<close>

record Recording =
  recId :: int
  blob :: "nat list"

record SpeechRecognitionResult =
  isFinal :: bool
  transcript :: jsstring

text \<open>The state of a \<open>MediaRecorder\<close>; the component never pauses one.\<close>

datatype RecorderState = RecInactive | RecRecording

text \<open>
  The calls on the recogniser that returned normally, in order; a start carries the value
  of \<open>recognition.lang\<close> it found.
\<close>

datatype EngineCall = RecStart "Language option" | RecStop

text \<open>
  What the continuation of \<open>handleTranslation\<close> after its \<open>await\<close> closes over:
  \<open>newEntry.id\<close> and \<open>mode\<close>, with the text and source language of the prompt.
\<close>

record Request =
  reqEntryId :: int
  reqMode :: Mode
  reqText :: jsstring
  reqLang :: Language
  settled :: bool

text \<open>The state cells a render passes to the closures it makes.\<close>

record Closure =
  cIsListening :: bool
  cCurrentLang :: Language
  cMode :: Mode
  cIsTranslating :: bool

text \<open>
  The React state, the refs, the closures in force, and the environment: the recogniser,
  every stream \<open>getUserMedia\<close> has granted (\<open>True\<close> while its tracks are live), and
  the continuations and queued events that are still to run.
\<close>

record App =
  isListening :: bool
  currentLang :: Language
  mode :: Mode
  log :: "LogEntry list"
  interimTranscript :: jsstring
  error :: "jsstring option"
  isTranslating :: bool
  recordings :: "Recording list"
  ai :: bool
  intentionalStop :: bool
  mediaRecorderRef :: "RecorderState option"
  audioChunksRef :: "nat list"
  streamRef :: "nat option"
  rendered :: Closure
  registered :: Closure
  recognition :: bool
  recognitionLang :: "Language option"
  mic :: "bool list"
  engineCalls :: "EngineCall list"
  pendingStarts :: "Language list"
  requests :: "Request list"
  onstopQueued :: nat
  pendingClips :: "nat list list"

datatype StartFault =
    NoFault
  | RecorderCtorThrows jsstring
  | RecorderStartThrows jsstring
  | RecognitionStartThrows jsstring

datatype MediaOutcome = MediaRejected jsstring | MediaGranted StartFault

datatype Event =
    Render
  | ClickMic
  | ClickLang
  | ClickMode
  | MediaResolved nat MediaOutcome
  | RecResult int nat "SpeechRecognitionResult list"
  | RecError jsstring
  | RecEnd bool
  | TranslationResolved nat jsstring
  | TranslationRejected nat
  | DataAvailable nat
  | RecorderStopped
  | LoadedMetadata nat int

subsection \<open>Rendering and small helpers\<close>

definition toggleLang :: "Language \<Rightarrow> Language" where
  "toggleLang l = (if l = JaJP then ZhTW else JaJP)"

definition snapshot :: "App \<Rightarrow> Closure" where
  "snapshot s =
     \<lparr>cIsListening = isListening s, cCurrentLang = currentLang s, cMode = mode s,
      cIsTranslating = isTranslating s\<rparr>"

text \<open>
  A render makes the click handlers anew. The effect with the dependencies
  \<open>[isListening, mode]\<close> runs again, and registers the recogniser's handlers of this
  render, when one of the two differs from what the previous render saw.
\<close>

definition render :: "App \<Rightarrow> App" where
  "render s =
     s\<lparr>rendered := snapshot s,
       registered :=
         (if cIsListening (rendered s) = isListening s \<and> cMode (rendered s) = mode s
          then registered s else snapshot s)\<rparr>"

text \<open>\<open>stream.getTracks().forEach(track => track.stop())\<close> on the stream with handle \<open>h\<close>.\<close>

definition stopTracks :: "nat \<Rightarrow> bool list \<Rightarrow> bool list" where
  "stopTracks h m = (if h < length m then m[h := False] else m)"

definition liveStreams :: "App \<Rightarrow> nat" where
  "liveStreams s = length (filter (\<lambda>b. b) (mic s))"

definition acquisitions :: "App \<Rightarrow> nat" where
  "acquisitions s = length (mic s)"

definition releases :: "App \<Rightarrow> nat" where
  "releases s = length (filter (\<lambda>b. \<not> b) (mic s))"

text \<open>
  \<open>String.prototype.trim\<close> strips the code units of ECMAScript's \<open>WhiteSpace\<close> and
  \<open>LineTerminator\<close>: tab, line feed, vertical tab, form feed, carriage return, space,
  no-break space, U+1680, U+2000 to U+200A, U+2028, U+2029, U+202F, U+205F, U+3000 and
  U+FEFF. All of them are single code units.
\<close>

definition isWhiteSpace :: "16 word \<Rightarrow> bool" where
  "isWhiteSpace u =
     (u = 0x0009 \<or> u = 0x000A \<or> u = 0x000B \<or> u = 0x000C \<or> u = 0x000D \<or> u = 0x0020
      \<or> u = 0x00A0 \<or> u = 0x1680 \<or> (0x2000 \<le> u \<and> u \<le> 0x200A) \<or> u = 0x2028
      \<or> u = 0x2029 \<or> u = 0x202F \<or> u = 0x205F \<or> u = 0x3000 \<or> u = 0xFEFF)"

definition trim :: "jsstring \<Rightarrow> jsstring" where
  "trim t = rev (dropWhile isWhiteSpace (rev (dropWhile isWhiteSpace t)))"

definition removeNth :: "nat \<Rightarrow> 'a list \<Rightarrow> 'a list" where
  "removeNth k xs = take k xs @ drop (Suc k) xs"

subsection \<open>The handlers\<close>

text \<open>\<open>stopListeningAndRecording\<close>; \<open>MediaRecorder.stop()\<close> queues the \<open>stop\<close> event.\<close>

definition stopListeningAndRecording :: "App \<Rightarrow> App" where
  "stopListeningAndRecording s =
     (let s1 = (if recognition s then s\<lparr>engineCalls := engineCalls s @ [RecStop]\<rparr> else s);
          s2 = (if mediaRecorderRef s1 = Some RecRecording
                then s1\<lparr>mediaRecorderRef := Some RecInactive,
                        onstopQueued := Suc (onstopQueued s1)\<rparr>
                else s1)
      in s2\<lparr>isListening := False, intentionalStop := False\<rparr>)"

text \<open>The \<open>onstop\<close> handler that \<open>startListeningAndRecording\<close> installs on a recorder.\<close>

definition recorderOnstop :: "App \<Rightarrow> App" where
  "recorderOnstop s =
     (let s1 = s\<lparr>pendingClips := pendingClips s @ [audioChunksRef s], audioChunksRef := []\<rparr>
      in case streamRef s1 of
           None \<Rightarrow> s1
         | Some h \<Rightarrow> s1\<lparr>mic := stopTracks h (mic s1), streamRef := None\<rparr>)"

text \<open>The \<open>ondataavailable\<close> handler.\<close>

definition recorderOndataavailable :: "nat \<Rightarrow> App \<Rightarrow> App" where
  "recorderOndataavailable sz s =
     (if sz > 0 then s\<lparr>audioChunksRef := audioChunksRef s @ [sz]\<rparr> else s)"

text \<open>The \<open>onloadedmetadata\<close> handler of the clip with blob \<open>b\<close>.\<close>

definition onloadedmetadata :: "int \<Rightarrow> nat list \<Rightarrow> App \<Rightarrow> App" where
  "onloadedmetadata now b s = s\<lparr>recordings := recordings s @ [\<lparr>recId = now, blob = b\<rparr>]\<rparr>"

text \<open>
  \<open>startListeningAndRecording\<close> up to its \<open>await\<close>: the continuation keeps the
  \<open>currentLang\<close> of the render the click handler came from.
\<close>

definition startListeningAndRecording :: "App \<Rightarrow> App" where
  "startListeningAndRecording s =
     (if \<not> recognition s then s
      else s\<lparr>pendingStarts := pendingStarts s @ [cCurrentLang (rendered s)]\<rparr>)"

text \<open>The \<open>catch\<close> block of \<open>startListeningAndRecording\<close>.\<close>

definition startCatch :: "jsstring \<Rightarrow> App \<Rightarrow> App" where
  "startCatch msg s = s\<lparr>error := Some (js ''Could not start microphone: '' @ msg)\<rparr>"

text \<open>The \<open>try\<close> block after a stream was granted, statement by statement.\<close>

definition startAfterStream :: "Language \<Rightarrow> StartFault \<Rightarrow> App \<Rightarrow> App" where
  "startAfterStream l f s =
     (let s1 = s\<lparr>mic := mic s @ [True], streamRef := Some (length (mic s))\<rparr> in
      case f of RecorderCtorThrows msg \<Rightarrow> startCatch msg s1
      | _ \<Rightarrow>
        (let s2 = s1\<lparr>mediaRecorderRef := Some RecInactive\<rparr> in
         case f of RecorderStartThrows msg \<Rightarrow> startCatch msg s2
         | _ \<Rightarrow>
           (let s3 = s2\<lparr>mediaRecorderRef := Some RecRecording, intentionalStop := False,
                        recognitionLang := Some l\<rparr> in
            case f of RecognitionStartThrows msg \<Rightarrow> startCatch msg s3
            | _ \<Rightarrow>
              s3\<lparr>engineCalls := engineCalls s3 @ [RecStart (Some l)],
                 isListening := True, error := None\<rparr>)))"

definition startResume :: "Language \<Rightarrow> MediaOutcome \<Rightarrow> App \<Rightarrow> App" where
  "startResume l out s =
     (case out of MediaRejected msg \<Rightarrow> startCatch msg s
      | MediaGranted f \<Rightarrow> startAfterStream l f s)"

text \<open>\<open>handleListenToggle\<close> tests the \<open>isListening\<close> of its render.\<close>

definition handleListenToggle :: "App \<Rightarrow> App" where
  "handleListenToggle s =
     (if cIsListening (rendered s) then stopListeningAndRecording (s\<lparr>intentionalStop := True\<rparr>)
      else startListeningAndRecording s)"

text \<open>
  \<open>handleTranslation\<close> up to its \<open>await\<close>, as \<open>handleResult\<close> calls it: \<open>currentLang\<close>
  and \<open>mode\<close> are those of the render that registered the recogniser's handlers.
\<close>

definition handleTranslation :: "int \<Rightarrow> jsstring \<Rightarrow> App \<Rightarrow> App" where
  "handleTranslation now text s =
     (if text = [] \<or> \<not> ai s then s
      else
        (let newEntry = \<lparr>entryId = now, original = text, translated = None,
                         lang = cCurrentLang (registered s)\<rparr>
         in s\<lparr>log := log s @ [newEntry], isTranslating := True, interimTranscript := [],
              requests := requests s @
                [\<lparr>reqEntryId = entryId newEntry, reqMode = cMode (registered s),
                  reqText = text, reqLang = cCurrentLang (registered s),
                  settled = False\<rparr>]\<rparr>))"

text \<open>
  \<open>prevLog.map(entry => entry.id === newEntry.id ? { ...entry, translated: t } : entry)\<close>
\<close>

definition updateTranslated :: "int \<Rightarrow> jsstring \<Rightarrow> LogEntry list \<Rightarrow> LogEntry list" where
  "updateTranslated i t =
     map (\<lambda>entry. if entryId entry = i then entry\<lparr>translated := Some t\<rparr> else entry)"

text \<open>The continuation of \<open>handleTranslation\<close> when the request succeeds.\<close>

definition translationSucceeded :: "Request \<Rightarrow> jsstring \<Rightarrow> App \<Rightarrow> App" where
  "translationSucceeded r translatedText s =
     (let s1 = s\<lparr>log := updateTranslated (reqEntryId r) translatedText (log s)\<rparr>;
          s2 = (if reqMode r = TurnTaking
                then s1\<lparr>currentLang := toggleLang (currentLang s1)\<rparr> else s1)
      in s2\<lparr>isTranslating := False\<rparr>)"

text \<open>The \<open>catch\<close> and \<open>finally\<close> blocks of \<open>handleTranslation\<close>.\<close>

definition translationFailed :: "Request \<Rightarrow> App \<Rightarrow> App" where
  "translationFailed r s =
     s\<lparr>error := Some (js ''Failed to translate text.''),
       log := updateTranslated (reqEntryId r) (js ''Translation failed.'') (log s),
       isTranslating := False\<rparr>"

text \<open>The loop of \<open>handleResult\<close> from \<open>resultIndex\<close> on: (final, interim).\<close>

fun collectTranscripts ::
  "SpeechRecognitionResult list \<Rightarrow> jsstring \<times> jsstring \<Rightarrow> jsstring \<times> jsstring" where
  "collectTranscripts [] acc = acc"
| "collectTranscripts (r # rs) (finalTranscript, interim) =
     (if isFinal r then collectTranscripts rs (finalTranscript @ transcript r, interim)
      else collectTranscripts rs (finalTranscript, interim @ transcript r))"

definition handleResult :: "int \<Rightarrow> nat \<Rightarrow> SpeechRecognitionResult list \<Rightarrow> App \<Rightarrow> App" where
  "handleResult now resultIndex results s =
     (let (finalTranscript, interim) = collectTranscripts (drop resultIndex results) ([], []);
          s1 = s\<lparr>interimTranscript := interim\<rparr>
      in if finalTranscript \<noteq> [] then handleTranslation now (trim finalTranscript) s1 else s1)"

definition handleError :: "jsstring \<Rightarrow> App \<Rightarrow> App" where
  "handleError kind s =
     (if kind = js ''no-speech'' then s
      else stopListeningAndRecording
             (s\<lparr>error := Some (js ''Speech recognition error: '' @ kind)\<rparr>))"

text \<open>
  \<open>handleEnd\<close>: the flag is a ref, \<open>isListening\<close> and \<open>mode\<close> are those of the render
  that registered the handler; \<open>startThrows\<close> says whether \<open>recognition.start()\<close>
  throws.
\<close>

definition handleEnd :: "bool \<Rightarrow> App \<Rightarrow> App" where
  "handleEnd startThrows s =
     (if intentionalStop s then stopListeningAndRecording s
      else if cIsListening (registered s) \<and> cMode (registered s) = Continuous then
        (if startThrows then stopListeningAndRecording s
         else s\<lparr>engineCalls := engineCalls s @ [RecStart (recognitionLang s)]\<rparr>)
      else stopListeningAndRecording s)"

text \<open>
  The cleanup of the mount effect. The effect returns it only when the API key is set;
  it stops the tracks of the current stream and leaves \<open>streamRef\<close> as it is.
\<close>

definition unmountCleanup :: "App \<Rightarrow> App" where
  "unmountCleanup s =
     (if \<not> ai s then s
      else case streamRef s of None \<Rightarrow> s | Some h \<Rightarrow> s\<lparr>mic := stopTracks h (mic s)\<rparr>)"

subsection \<open>The event loop\<close>

text \<open>The state after the first render and its effects.\<close>

definition init :: "bool \<Rightarrow> bool \<Rightarrow> App" where
  "init apiKey speechRecognition =
     \<lparr>isListening = False, currentLang = JaJP, mode = TurnTaking, log = [],
      interimTranscript = [],
      error = (if \<not> apiKey then Some (js ''API_KEY environment variable not set.'')
               else if \<not> speechRecognition
               then Some (js ''Speech recognition is not supported in this browser.'')
               else None),
      isTranslating = False, recordings = [], ai = apiKey, intentionalStop = False,
      mediaRecorderRef = None, audioChunksRef = [], streamRef = None,
      rendered = \<lparr>cIsListening = False, cCurrentLang = JaJP, cMode = TurnTaking,
                  cIsTranslating = False\<rparr>,
      registered = \<lparr>cIsListening = False, cCurrentLang = JaJP, cMode = TurnTaking,
                    cIsTranslating = False\<rparr>,
      recognition = speechRecognition, recognitionLang = None,
      mic = [], engineCalls = [], pendingStarts = [], requests = [], onstopQueued = 0,
      pendingClips = []\<rparr>"

text \<open>
  One event. The buttons are disabled as the last render drew them
  (\<open>disabled={isTranslating}\<close> on the microphone, \<open>disabled={isListening}\<close> on the
  language and mode toggles), and their updates are functions of the current value; the
  recogniser's events need a recogniser; a completion needs the continuation it completes.
\<close>

fun step :: "App \<Rightarrow> Event \<Rightarrow> App" where
  "step s Render = render s"
| "step s ClickMic = (if cIsTranslating (rendered s) then s else handleListenToggle s)"
| "step s ClickLang =
     (if cIsListening (rendered s) then s
      else s\<lparr>currentLang := toggleLang (currentLang s)\<rparr>)"
| "step s ClickMode =
     (if cIsListening (rendered s) then s
      else s\<lparr>mode := (if mode s = TurnTaking then Continuous else TurnTaking)\<rparr>)"
| "step s (MediaResolved k out) =
     (if k < length (pendingStarts s)
      then startResume (pendingStarts s ! k) out
             (s\<lparr>pendingStarts := removeNth k (pendingStarts s)\<rparr>)
      else s)"
| "step s (RecResult now resultIndex results) =
     (if recognition s then handleResult now resultIndex results s else s)"
| "step s (RecError kind) = (if recognition s then handleError kind s else s)"
| "step s (RecEnd startThrows) = (if recognition s then handleEnd startThrows s else s)"
| "step s (TranslationResolved k translatedText) =
     (if k < length (requests s) \<and> \<not> settled (requests s ! k)
      then translationSucceeded (requests s ! k) translatedText
             (s\<lparr>requests := (requests s)[k := (requests s ! k)\<lparr>settled := True\<rparr>]\<rparr>)
      else s)"
| "step s (TranslationRejected k) =
     (if k < length (requests s) \<and> \<not> settled (requests s ! k)
      then translationFailed (requests s ! k)
             (s\<lparr>requests := (requests s)[k := (requests s ! k)\<lparr>settled := True\<rparr>]\<rparr>)
      else s)"
| "step s (DataAvailable sz) = recorderOndataavailable sz s"
| "step s RecorderStopped =
     (if onstopQueued s > 0 then recorderOnstop (s\<lparr>onstopQueued := onstopQueued s - 1\<rparr>)
      else s)"
| "step s (LoadedMetadata k now) =
     (if k < length (pendingClips s)
      then onloadedmetadata now (pendingClips s ! k)
             (s\<lparr>pendingClips := removeNth k (pendingClips s)\<rparr>)
      else s)"

fun run :: "App \<Rightarrow> Event list \<Rightarrow> App" where
  "run s [] = s"
| "run s (e # es) = run (step s e) es"

subsection \<open>Notions the properties are stated with\<close>

text \<open>
  A session is listening when the recogniser exists, \<open>isListening\<close> is set and the current
  recorder records; the component is idle when \<open>isListening\<close> is clear and the current
  recorder does not record.
\<close>

definition Listening :: "App \<Rightarrow> bool" where
  "Listening s \<longleftrightarrow>
     recognition s \<and> isListening s \<and> mediaRecorderRef s = Some RecRecording"

definition Idle :: "App \<Rightarrow> bool" where
  "Idle s \<longleftrightarrow> \<not> isListening s \<and> mediaRecorderRef s \<noteq> Some RecRecording"

text \<open>
  The recogniser's handlers in force are those of the current \<open>isListening\<close> and
  \<open>mode\<close>: the render after their last change has run.
\<close>

definition registeredCurrent :: "App \<Rightarrow> bool" where
  "registeredCurrent s \<longleftrightarrow>
     cIsListening (registered s) = isListening s \<and> cMode (registered s) = mode s"

text \<open>The call that started the recognition session last begun.\<close>

fun lastStart :: "EngineCall list \<Rightarrow> EngineCall option" where
  "lastStart [] = None"
| "lastStart (c # cs) =
     (case lastStart cs of
        Some x \<Rightarrow> Some x
      | None \<Rightarrow> (case c of RecStart l \<Rightarrow> Some c | RecStop \<Rightarrow> None))"

text \<open>An event that grants a stream.\<close>

definition grants :: "Event \<Rightarrow> bool" where
  "grants e = (case e of MediaResolved k (MediaGranted f) \<Rightarrow> True | _ \<Rightarrow> False)"

text \<open>
  A translation success that finds its continuation, one whose request was issued in
  turn-taking mode, and their numbers along a run.
\<close>

definition resolves :: "App \<Rightarrow> Event \<Rightarrow> bool" where
  "resolves s e =
     (case e of
        TranslationResolved k t \<Rightarrow> k < length (requests s) \<and> \<not> settled (requests s ! k)
      | _ \<Rightarrow> False)"

definition turnResolves :: "App \<Rightarrow> Event \<Rightarrow> bool" where
  "turnResolves s e =
     (case e of
        TranslationResolved k t \<Rightarrow>
          k < length (requests s) \<and> \<not> settled (requests s ! k) \<and>
          reqMode (requests s ! k) = TurnTaking
      | _ \<Rightarrow> False)"

fun successes :: "App \<Rightarrow> Event list \<Rightarrow> nat" where
  "successes s [] = 0"
| "successes s (e # es) = (if resolves s e then 1 else 0) + successes (step s e) es"

fun turnSuccesses :: "App \<Rightarrow> Event list \<Rightarrow> nat" where
  "turnSuccesses s [] = 0"
| "turnSuccesses s (e # es) =
     (if turnResolves s e then 1 else 0) + turnSuccesses (step s e) es"

text \<open>
  Turn-taking mode: the mode is turn-taking, the recogniser's handlers were registered in
  turn-taking mode, and so was every request that is still in flight issued.
\<close>

definition turnTaking :: "App \<Rightarrow> bool" where
  "turnTaking s \<longleftrightarrow>
     mode s = TurnTaking \<and> cMode (registered s) = TurnTaking \<and>
     (\<forall>r \<in> set (requests s). \<not> settled r \<longrightarrow> reqMode r = TurnTaking)"

text \<open>
  The reading of the clock and the text of a result event whose final transcript is not
  blank: not empty, and not empty once trimmed.
\<close>

definition acceptedFinal :: "Event \<Rightarrow> (int \<times> jsstring) option" where
  "acceptedFinal e =
     (case e of
        RecResult now resultIndex results \<Rightarrow>
          (let finalTranscript = fst (collectTranscripts (drop resultIndex results) ([], []))
           in if finalTranscript \<noteq> [] \<and> trim finalTranscript \<noteq> []
              then Some (now, trim finalTranscript) else None)
      | _ \<Rightarrow> None)"

definition entryKey :: "LogEntry \<Rightarrow> int \<times> jsstring" where
  "entryKey x = (entryId x, original x)"

definition requestKey :: "Request \<Rightarrow> int \<times> jsstring" where
  "requestKey r = (reqEntryId r, reqText r)"

text \<open>A result event with one final result.\<close>

definition onFinal :: "int \<Rightarrow> jsstring \<Rightarrow> Event" where
  "onFinal now t = RecResult now 0 [\<lparr>isFinal = True, transcript = t\<rparr>]"

text \<open>
  Sessions the examples start from: listening in turn-taking mode, in continuous mode, and
  in turn-taking mode without an API key, each rendered.
\<close>

definition listening0 :: App where
  "listening0 = run (init True True) [ClickMic, MediaResolved 0 (MediaGranted NoFault), Render]"

definition listeningC :: App where
  "listeningC =
     run (init True True)
       [ClickMode, Render, ClickMic, MediaResolved 0 (MediaGranted NoFault), Render]"

definition listeningNoKey :: App where
  "listeningNoKey =
     run (init False True) [ClickMic, MediaResolved 0 (MediaGranted NoFault), Render]"

text \<open>The turn-taking session with the text \<open>A\<close> submitted and its translation in flight.\<close>

definition listening1 :: App where
  "listening1 = step listening0 (onFinal 1000 (js ''A''))"

text \<open>
  The continuous session with the text \<open>A\<close> submitted, ended by a fatal error, and the mode
  switched to turn-taking while the translation is in flight.
\<close>

definition switchedMode :: App where
  "switchedMode =
     run listeningC
       [onFinal 1000 (js ''A''), Render, RecError (js ''network''), RecorderStopped, Render,
        ClickMode, Render]"

text \<open>
  A double click on the microphone button before the first \<open>getUserMedia\<close> answers; the
  second \<open>recognition.start()\<close> finds the recogniser started. Then the session is stopped
  and the recorder's \<open>stop\<close> event is delivered.
\<close>

definition doubleClick :: "Event list" where
  "doubleClick =
     [ClickMic, ClickMic, MediaResolved 0 (MediaGranted NoFault),
      MediaResolved 0 (MediaGranted (RecognitionStartThrows (js ''InvalidStateError''))),
      Render]"

definition stopAndFinalize :: "Event list" where
  "stopAndFinalize = [ClickMic, RecorderStopped, Render]"

text \<open>A start whose recorder cannot be constructed, followed by a whole session.\<close>

definition failedStart :: "Event list" where
  "failedStart =
     [ClickMic, MediaResolved 0 (MediaGranted (RecorderCtorThrows (js ''NotSupportedError''))),
      Render]"

definition wholeSession :: "Event list" where
  "wholeSession =
     [ClickMic, MediaResolved 0 (MediaGranted NoFault), Render, ClickMic, RecorderStopped,
      Render]"

text \<open>
  Two clicks on the microphone button with a click on the language button between them,
  before \<open>getUserMedia\<close> answers: the second start sets \<open>recognition.lang\<close> and then fails.
\<close>

definition languageOverwritten :: App where
  "languageOverwritten =
     run (init True True)
       [ClickMode, Render, ClickMic, ClickLang, Render, ClickMic,
        MediaResolved 0 (MediaGranted NoFault),
        MediaResolved 0 (MediaGranted (RecognitionStartThrows (js ''InvalidStateError''))),
        Render]"

section \<open>Properties\<close>

subsection \<open>Evaluation and frame lemmas\<close>

lemmas handler_defs =
  render_def snapshot_def handleListenToggle_def startListeningAndRecording_def
  startResume_def startAfterStream_def startCatch_def stopListeningAndRecording_def
  handleTranslation_def handleResult_def handleError_def handleEnd_def
  translationSucceeded_def translationFailed_def updateTranslated_def recorderOnstop_def
  recorderOndataavailable_def onloadedmetadata_def removeNth_def stopTracks_def
  toggleLang_def onFinal_def trim_def isWhiteSpace_def js_def

lemma listening0_eq:
  "listening0 =
     \<lparr>isListening = True, currentLang = JaJP, mode = TurnTaking, log = [],
      interimTranscript = [], error = None, isTranslating = False, recordings = [],
      ai = True, intentionalStop = False, mediaRecorderRef = Some RecRecording,
      audioChunksRef = [], streamRef = Some 0,
      rendered = \<lparr>cIsListening = True, cCurrentLang = JaJP, cMode = TurnTaking,
                  cIsTranslating = False\<rparr>,
      registered = \<lparr>cIsListening = True, cCurrentLang = JaJP, cMode = TurnTaking,
                    cIsTranslating = False\<rparr>,
      recognition = True, recognitionLang = Some JaJP, mic = [True],
      engineCalls = [RecStart (Some JaJP)], pendingStarts = [], requests = [],
      onstopQueued = 0, pendingClips = []\<rparr>"
  by (simp add: listening0_def init_def handler_defs Let_def)

lemma listeningC_eq:
  "listeningC =
     \<lparr>isListening = True, currentLang = JaJP, mode = Continuous, log = [],
      interimTranscript = [], error = None, isTranslating = False, recordings = [],
      ai = True, intentionalStop = False, mediaRecorderRef = Some RecRecording,
      audioChunksRef = [], streamRef = Some 0,
      rendered = \<lparr>cIsListening = True, cCurrentLang = JaJP, cMode = Continuous,
                  cIsTranslating = False\<rparr>,
      registered = \<lparr>cIsListening = True, cCurrentLang = JaJP, cMode = Continuous,
                    cIsTranslating = False\<rparr>,
      recognition = True, recognitionLang = Some JaJP, mic = [True],
      engineCalls = [RecStart (Some JaJP)], pendingStarts = [], requests = [],
      onstopQueued = 0, pendingClips = []\<rparr>"
  by (simp add: listeningC_def init_def handler_defs Let_def)

lemma listeningNoKey_eq:
  "listeningNoKey =
     \<lparr>isListening = True, currentLang = JaJP, mode = TurnTaking, log = [],
      interimTranscript = [], error = None, isTranslating = False, recordings = [],
      ai = False, intentionalStop = False, mediaRecorderRef = Some RecRecording,
      audioChunksRef = [], streamRef = Some 0,
      rendered = \<lparr>cIsListening = True, cCurrentLang = JaJP, cMode = TurnTaking,
                  cIsTranslating = False\<rparr>,
      registered = \<lparr>cIsListening = True, cCurrentLang = JaJP, cMode = TurnTaking,
                    cIsTranslating = False\<rparr>,
      recognition = True, recognitionLang = Some JaJP, mic = [True],
      engineCalls = [RecStart (Some JaJP)], pendingStarts = [], requests = [],
      onstopQueued = 0, pendingClips = []\<rparr>"
  by (simp add: listeningNoKey_def init_def handler_defs Let_def)

lemma listening1_eq:
  "listening1 =
     \<lparr>isListening = True, currentLang = JaJP, mode = TurnTaking,
      log = [\<lparr>entryId = 1000, original = js ''A'', translated = None, lang = JaJP\<rparr>],
      interimTranscript = [], error = None, isTranslating = True, recordings = [],
      ai = True, intentionalStop = False, mediaRecorderRef = Some RecRecording,
      audioChunksRef = [], streamRef = Some 0,
      rendered = \<lparr>cIsListening = True, cCurrentLang = JaJP, cMode = TurnTaking,
                  cIsTranslating = False\<rparr>,
      registered = \<lparr>cIsListening = True, cCurrentLang = JaJP, cMode = TurnTaking,
                    cIsTranslating = False\<rparr>,
      recognition = True, recognitionLang = Some JaJP, mic = [True],
      engineCalls = [RecStart (Some JaJP)], pendingStarts = [],
      requests = [\<lparr>reqEntryId = 1000, reqMode = TurnTaking, reqText = js ''A'',
                   reqLang = JaJP, settled = False\<rparr>],
      onstopQueued = 0, pendingClips = []\<rparr>"
  by (simp add: listening1_def listening0_eq handler_defs Let_def)

lemma switchedMode_eq:
  "switchedMode =
     \<lparr>isListening = False, currentLang = JaJP, mode = TurnTaking,
      log = [\<lparr>entryId = 1000, original = js ''A'', translated = None, lang = JaJP\<rparr>],
      interimTranscript = [], error = Some (js ''Speech recognition error: network''),
      isTranslating = True, recordings = [],
      ai = True, intentionalStop = False, mediaRecorderRef = Some RecInactive,
      audioChunksRef = [], streamRef = None,
      rendered = \<lparr>cIsListening = False, cCurrentLang = JaJP, cMode = TurnTaking,
                  cIsTranslating = True\<rparr>,
      registered = \<lparr>cIsListening = False, cCurrentLang = JaJP, cMode = TurnTaking,
                    cIsTranslating = True\<rparr>,
      recognition = True, recognitionLang = Some JaJP, mic = [False],
      engineCalls = [RecStart (Some JaJP), RecStop], pendingStarts = [],
      requests = [\<lparr>reqEntryId = 1000, reqMode = Continuous, reqText = js ''A'',
                   reqLang = JaJP, settled = False\<rparr>],
      onstopQueued = 0, pendingClips = [[]]\<rparr>"
  by (simp add: switchedMode_def listeningC_eq handler_defs Let_def)

lemma trim_letter:
  "trim (js ''A'') = js ''A''" "trim (js ''B'') = js ''B''" "trim (js '' '') = []"
  "js ''A'' \<noteq> []" "js ''B'' \<noteq> []" "js '' '' \<noteq> []"
  by (simp_all add: trim_def isWhiteSpace_def js_def)

text \<open>
  \<open>trim\<close> on text beyond Latin-1: an ideographic space and a space around two kana, and a
  transcript of an ideographic space and a byte order mark alone.
\<close>

lemma trim_ideographic:
  "trim [0x3000, 0x3053, 0x3093, 0x0020] = [0x3053, 0x3093]"
  "trim [0x3000, 0xFEFF] = []"
  by (simp_all add: trim_def isWhiteSpace_def)

lemma toggleLang_twice [simp]: "toggleLang (toggleLang l) = l"
  by (cases l) (simp_all add: toggleLang_def)

lemma startAfterStream_keeps:
  "mode (startAfterStream l f s) = mode s"
  "requests (startAfterStream l f s) = requests s"
  "currentLang (startAfterStream l f s) = currentLang s"
  "log (startAfterStream l f s) = log s"
  "ai (startAfterStream l f s) = ai s"
  "recognition (startAfterStream l f s) = recognition s"
  "registered (startAfterStream l f s) = registered s"
  "rendered (startAfterStream l f s) = rendered s"
  by (cases f; simp add: startAfterStream_def startCatch_def Let_def)+

lemma stop_keeps:
  "mode (stopListeningAndRecording s) = mode s"
  "requests (stopListeningAndRecording s) = requests s"
  "currentLang (stopListeningAndRecording s) = currentLang s"
  "log (stopListeningAndRecording s) = log s"
  "ai (stopListeningAndRecording s) = ai s"
  "recognition (stopListeningAndRecording s) = recognition s"
  "registered (stopListeningAndRecording s) = registered s"
  "rendered (stopListeningAndRecording s) = rendered s"
  by (simp_all add: stopListeningAndRecording_def Let_def)

lemma handleTranslation_consts:
  "ai (handleTranslation now t s) = ai s"
  "recognition (handleTranslation now t s) = recognition s"
  "intentionalStop (handleTranslation now t s) = intentionalStop s"
  "currentLang (handleTranslation now t s) = currentLang s"
  "mode (handleTranslation now t s) = mode s"
  "registered (handleTranslation now t s) = registered s"
  "isListening (handleTranslation now t s) = isListening s"
  "mediaRecorderRef (handleTranslation now t s) = mediaRecorderRef s"
  by (simp_all add: handleTranslation_def Let_def)

lemma handleTranslation_blank: "handleTranslation now [] s = s"
  by (simp add: handleTranslation_def)

lemma step_consts: "ai (step s e) = ai s \<and> recognition (step s e) = recognition s"
proof (cases e)
  case (MediaResolved k out)
  then show ?thesis
    by (cases out) (auto simp: startResume_def startCatch_def startAfterStream_keeps)
next
  case (RecResult now i rs)
  then show ?thesis
    by (auto simp: handleResult_def handleTranslation_consts Let_def split: prod.splits)
qed (auto simp: render_def handleListenToggle_def startListeningAndRecording_def stop_keeps
      handleError_def handleEnd_def translationSucceeded_def translationFailed_def
      recorderOnstop_def recorderOndataavailable_def onloadedmetadata_def Let_def
      split: option.splits)

subsection \<open>The intentional-stop flag\<close>

lemma intentionalStop_stop: "\<not> intentionalStop (stopListeningAndRecording s)"
  by (simp add: stopListeningAndRecording_def Let_def)

lemma intentionalStop_startAfterStream:
  "intentionalStop (startAfterStream l f s) \<Longrightarrow> intentionalStop s"
  by (cases f) (simp_all add: startAfterStream_def startCatch_def Let_def)

lemma intentionalStop_step: "intentionalStop (step s e) \<Longrightarrow> intentionalStop s"
proof (cases e)
  case (MediaResolved k out)
  then show "intentionalStop (step s e) \<Longrightarrow> intentionalStop s"
    by (cases out)
      (auto simp: startResume_def startCatch_def split: if_splits
        dest: intentionalStop_startAfterStream)
next
  case (RecResult now i rs)
  then show "intentionalStop (step s e) \<Longrightarrow> intentionalStop s"
    by (auto simp: handleResult_def handleTranslation_consts Let_def
        split: if_splits prod.splits)
qed (auto simp: render_def handleListenToggle_def startListeningAndRecording_def
      handleError_def handleEnd_def translationSucceeded_def translationFailed_def
      recorderOnstop_def recorderOndataavailable_def onloadedmetadata_def Let_def
      intentionalStop_stop split: if_splits option.splits)

lemma intentionalStop_run: "intentionalStop (run s evs) \<Longrightarrow> intentionalStop s"
  by (induction evs arbitrary: s) (auto dest: intentionalStop_step)

text \<open>
  C10. After any sequence of events from the first render the intentional-stop flag is
  false, so it is false whenever no session is listening and whenever one starts.
  \<open>stopListeningAndRecording\<close> leaves it false on every path that stops; a start that goes
  through leaves it false; the toggle raises it only when its render saw a listening
  session and lowers it again in the same handler; and no event hands on a raised flag that
  it did not find raised.
\<close>

theorem C10_intentionalStop_never_pending:
  "\<not> intentionalStop (run (init apiKey speechRecognition) evs) \<and>
   \<not> intentionalStop (stopListeningAndRecording s) \<and>
   \<not> intentionalStop (startAfterStream l NoFault s) \<and>
   (cIsListening (rendered s) \<longrightarrow> \<not> intentionalStop (handleListenToggle s)) \<and>
   (\<not> cIsListening (rendered s) \<longrightarrow>
      intentionalStop (handleListenToggle s) = intentionalStop s) \<and>
   (\<not> intentionalStop s \<longrightarrow> \<not> intentionalStop (step s e))"
proof -
  have "\<not> intentionalStop (run (init apiKey speechRecognition) evs)"
    using intentionalStop_run[of "init apiKey speechRecognition" evs] by (auto simp: init_def)
  moreover have "\<not> intentionalStop (startAfterStream l NoFault s)"
    by (simp add: startAfterStream_def Let_def)
  moreover have "cIsListening (rendered s) \<longrightarrow> \<not> intentionalStop (handleListenToggle s)"
    by (simp add: handleListenToggle_def intentionalStop_stop)
  moreover have "\<not> cIsListening (rendered s) \<longrightarrow>
      intentionalStop (handleListenToggle s) = intentionalStop s"
    by (simp add: handleListenToggle_def startListeningAndRecording_def)
  moreover have "\<not> intentionalStop s \<longrightarrow> \<not> intentionalStop (step s e)"
    using intentionalStop_step[of s e] by blast
  ultimately show ?thesis
    using intentionalStop_stop[of s] by blast
qed

theorem C10_witness:
  "isListening listening0 \<and> cIsListening (rendered listening0) \<and>
   \<not> intentionalStop listening0 \<and>
   \<not> intentionalStop (handleListenToggle listening0) \<and>
   \<not> cIsListening (rendered (init True True)) \<and>
   intentionalStop (handleListenToggle (init True True)) = intentionalStop (init True True) \<and>
   \<not> intentionalStop (step listening0 ClickMic)"
  using C10_intentionalStop_never_pending[of True True "[]" listening0 JaJP ClickMic]
    C10_intentionalStop_never_pending[of True True "[]" "init True True" JaJP ClickMic]
  by (simp add: listening0_eq init_def)

subsection \<open>Language toggling in turn-taking mode\<close>

lemma currentLang_step:
  assumes "e \<noteq> ClickLang"
  shows "currentLang (step s e) =
           (if turnResolves s e then toggleLang (currentLang s) else currentLang s)"
proof (cases e)
  case (MediaResolved k out)
  then show ?thesis
    by (cases out)
      (auto simp: turnResolves_def startResume_def startCatch_def startAfterStream_keeps)
next
  case (RecResult now i rs)
  then show ?thesis
    by (auto simp: turnResolves_def handleResult_def handleTranslation_consts Let_def
        split: prod.splits)
next
  case (TranslationResolved k t)
  then show ?thesis
    by (auto simp: turnResolves_def translationSucceeded_def Let_def)
qed (use assms in \<open>auto simp: turnResolves_def render_def handleListenToggle_def
      startListeningAndRecording_def stop_keeps handleError_def handleEnd_def
      translationFailed_def recorderOnstop_def recorderOndataavailable_def
      onloadedmetadata_def Let_def split: option.splits\<close>)

lemma currentLang_parity:
  "ClickLang \<notin> set evs \<Longrightarrow>
   currentLang (run s evs) =
     (if even (turnSuccesses s evs) then currentLang s else toggleLang (currentLang s))"
proof (induction evs arbitrary: s)
  case Nil
  then show ?case by simp
next
  case (Cons e es)
  then have ne: "e \<noteq> ClickLang" by auto
  have "currentLang (run (step s e) es) =
          (if even (turnSuccesses (step s e) es) then currentLang (step s e)
           else toggleLang (currentLang (step s e)))"
    using Cons by simp
  then show ?case by (simp add: currentLang_step[OF ne])
qed

lemma unsettled_after_settle:
  assumes "\<forall>r \<in> set rs. \<not> settled r \<longrightarrow> reqMode r = TurnTaking"
  shows "\<forall>r \<in> set (rs[k := (rs ! k)\<lparr>settled := True\<rparr>]). \<not> settled r \<longrightarrow> reqMode r = TurnTaking"
proof
  fix r
  assume "r \<in> set (rs[k := (rs ! k)\<lparr>settled := True\<rparr>])"
  then have "r = (rs ! k)\<lparr>settled := True\<rparr> \<or> r \<in> set rs"
    using set_update_subset_insert[of rs k "(rs ! k)\<lparr>settled := True\<rparr>"] by auto
  with assms show "\<not> settled r \<longrightarrow> reqMode r = TurnTaking" by auto
qed

lemma turnTaking_step:
  assumes "turnTaking s" "e \<noteq> ClickMode"
  shows "turnTaking (step s e) \<and> turnResolves s e = resolves s e"
proof (cases e)
  case (MediaResolved k out)
  with assms show ?thesis
    by (cases out)
      (auto simp: turnTaking_def turnResolves_def resolves_def startResume_def startCatch_def
        startAfterStream_keeps)
next
  case (RecResult now i rs)
  with assms show ?thesis
    by (auto simp: turnTaking_def turnResolves_def resolves_def handleResult_def
        handleTranslation_def Let_def split: prod.splits)
next
  case (TranslationResolved k t)
  with assms unsettled_after_settle[of "requests s" k] show ?thesis
    by (auto simp: turnTaking_def turnResolves_def resolves_def translationSucceeded_def
        Let_def)
next
  case (TranslationRejected k)
  with assms unsettled_after_settle[of "requests s" k] show ?thesis
    by (auto simp: turnTaking_def turnResolves_def resolves_def translationFailed_def)
qed (use assms in \<open>auto simp: turnTaking_def turnResolves_def resolves_def render_def
      snapshot_def handleListenToggle_def startListeningAndRecording_def stop_keeps
      handleError_def handleEnd_def recorderOnstop_def recorderOndataavailable_def
      onloadedmetadata_def Let_def split: option.splits\<close>)

lemma turnSuccesses_all:
  "turnTaking s \<Longrightarrow> ClickMode \<notin> set evs \<Longrightarrow> turnSuccesses s evs = successes s evs"
proof (induction evs arbitrary: s)
  case Nil
  then show ?case by simp
next
  case (Cons e es)
  then have ne: "e \<noteq> ClickMode" by auto
  note st = turnTaking_step[OF Cons.prems(1) ne]
  have "turnSuccesses (step s e) es = successes (step s e) es"
    using Cons.IH[of "step s e"] st Cons.prems by simp
  with st show ?case by simp
qed

text \<open>
  The claim C5 as it is written fails: the component is in turn-taking mode, the request in
  flight was issued in continuous mode, and its success leaves the language as it was.
\<close>

theorem C5_counterexample:
  "mode switchedMode = TurnTaking \<and> currentLang switchedMode = JaJP \<and>
   successes switchedMode [TranslationResolved 0 (js ''tA'')] = 1 \<and>
   currentLang (run switchedMode [TranslationResolved 0 (js ''tA'')]) = JaJP"
  by (simp add: switchedMode_eq resolves_def translationSucceeded_def Let_def)

text \<open>
  C5, amended. In turn-taking mode, with the recogniser's handlers registered in turn-taking
  mode and every request still in flight issued in turn-taking mode, run any sequence of
  events without a click on the language or the mode button: successes and failures of
  translations, results, errors, ends, renders, starts and stops, in any interleaving. With
  \<open>N\<close> the number of translations that succeeded, the language at the end is the one at
  the beginning when \<open>N\<close> is even and the other one when \<open>N\<close> is odd. In any mode the
  successes that count are those of requests issued in turn-taking mode: the success of a
  request issued in continuous mode, and a translation that fails, leave the language as it
  is.
\<close>

theorem C5_language_parity:
  "ClickLang \<notin> set evs \<Longrightarrow>
     currentLang (run s evs) =
       (if even (turnSuccesses s evs) then currentLang s else toggleLang (currentLang s)) \<and>
     (turnTaking s \<and> ClickMode \<notin> set evs \<longrightarrow>
        turnSuccesses s evs = successes s evs \<and>
        currentLang (run s evs) =
          (if even (successes s evs) then currentLang s else toggleLang (currentLang s))) \<and>
     currentLang (step s (TranslationRejected k)) = currentLang s"
proof -
  assume a: "ClickLang \<notin> set evs"
  have r: "currentLang (step s (TranslationRejected k)) = currentLang s"
    by (simp add: translationFailed_def)
  note p = currentLang_parity[OF a, of s]
  have "turnTaking s \<and> ClickMode \<notin> set evs \<longrightarrow>
        turnSuccesses s evs = successes s evs \<and>
        currentLang (run s evs) =
          (if even (successes s evs) then currentLang s else toggleLang (currentLang s))"
    using p turnSuccesses_all[of s evs] by auto
  with p r show ?thesis by blast
qed

theorem C5_witness:
  "turnTaking listening1 \<and>
   currentLang listening1 = JaJP \<and>
   successes listening1
     [TranslationResolved 0 (js ''tA''), Render, onFinal 1001 (js ''B''),
      TranslationRejected 1] = 1 \<and>
   currentLang (run listening1
     [TranslationResolved 0 (js ''tA''), Render, onFinal 1001 (js ''B''),
      TranslationRejected 1]) = ZhTW \<and>
   turnSuccesses switchedMode [TranslationResolved 0 (js ''tA'')] = 0 \<and>
   currentLang (run switchedMode [TranslationResolved 0 (js ''tA'')]) = JaJP"
proof -
  define evs where
    "evs = [TranslationResolved 0 (js ''tA''), Render, onFinal 1001 (js ''B''),
            TranslationRejected 1]"
  have t: "turnTaking listening1"
    by (simp add: turnTaking_def listening1_eq)
  have c: "currentLang listening1 = JaJP"
    by (simp add: listening1_eq)
  have n: "successes listening1 evs = 1"
    by (simp add: evs_def listening1_eq resolves_def handler_defs Let_def)
  have h: "ClickLang \<notin> set evs" "ClickMode \<notin> set evs"
    by (simp_all add: evs_def onFinal_def)
  have 1: "currentLang (run listening1 evs) = ZhTW"
    using C5_language_parity[OF h(1), of listening1 0] t h(2)
    by (simp add: n c toggleLang_def)
  have m: "turnSuccesses switchedMode [TranslationResolved 0 (js ''tA'')] = 0"
    "currentLang switchedMode = JaJP"
    by (simp_all add: switchedMode_eq turnResolves_def)
  have g: "ClickLang \<notin> set [TranslationResolved 0 (js ''tA'')]"
    by simp
  have 2: "currentLang (run switchedMode [TranslationResolved 0 (js ''tA'')]) = JaJP"
    using C5_language_parity[OF g, of switchedMode 0] by (simp only: m) simp
  from t c n 1 m(1) 2 show ?thesis
    by (simp add: evs_def)
qed

subsection \<open>The transcript grows in arrival order\<close>

lemma entryKey_updateTranslated:
  "map entryKey (updateTranslated i t xs) = map entryKey xs"
  by (induction xs) (simp_all add: updateTranslated_def entryKey_def)

lemma requestKey_settle:
  "map requestKey (rs[k := (rs ! k)\<lparr>settled := True\<rparr>]) = map requestKey rs"
  by (induction rs arbitrary: k) (auto simp: requestKey_def nth_Cons split: nat.splits)

lemma handleTranslation_keys:
  "ai s \<Longrightarrow> t \<noteq> [] \<Longrightarrow>
     map entryKey (log (handleTranslation now t s)) = map entryKey (log s) @ [(now, t)] \<and>
     map requestKey (requests (handleTranslation now t s)) =
       map requestKey (requests s) @ [(now, t)]"
  by (simp add: handleTranslation_def Let_def entryKey_def requestKey_def)

lemma handleTranslation_unconfigured: "\<not> ai s \<Longrightarrow> handleTranslation now t s = s"
  by (simp add: handleTranslation_def)

lemma step_keys:
  "map entryKey (log (step s e)) =
     map entryKey (log s) @
       (if ai s \<and> recognition s
        then (case acceptedFinal e of None \<Rightarrow> [] | Some x \<Rightarrow> [x]) else []) \<and>
   map requestKey (requests (step s e)) =
     map requestKey (requests s) @
       (if ai s \<and> recognition s
        then (case acceptedFinal e of None \<Rightarrow> [] | Some x \<Rightarrow> [x]) else [])"
proof (cases e)
  case (MediaResolved k out)
  then show ?thesis
    by (cases out)
      (auto simp: acceptedFinal_def startResume_def startCatch_def startAfterStream_keeps)
next
  case (RecResult now i rs)
  obtain f im where c: "collectTranscripts (drop i rs) ([], []) = (f, im)"
    by (cases "collectTranscripts (drop i rs) ([], [])")
  show ?thesis
  proof (cases "ai s \<and> recognition s")
    case True
    show ?thesis
    proof (cases "f \<noteq> [] \<and> trim f \<noteq> []")
      case True
      then show ?thesis
        using \<open>ai s \<and> recognition s\<close> RecResult c
          handleTranslation_keys[of "s\<lparr>interimTranscript := im\<rparr>" "trim f" now]
        by (simp add: acceptedFinal_def handleResult_def)
    next
      case False
      then show ?thesis
        using \<open>ai s \<and> recognition s\<close> RecResult c
        by (cases "f = []")
          (simp_all add: acceptedFinal_def handleResult_def handleTranslation_blank)
    qed
  next
    case False
    then show ?thesis
      using RecResult c
        handleTranslation_unconfigured[of "s\<lparr>interimTranscript := im\<rparr>" now "trim f"]
      by (cases "recognition s") (simp_all add: handleResult_def Let_def)
  qed
qed (auto simp: acceptedFinal_def render_def handleListenToggle_def
      startListeningAndRecording_def stop_keeps handleError_def handleEnd_def
      translationSucceeded_def translationFailed_def recorderOnstop_def
      recorderOndataavailable_def onloadedmetadata_def entryKey_updateTranslated
      requestKey_settle Let_def split: option.splits)

lemma run_keys:
  "map entryKey (log (run s evs)) =
     map entryKey (log s) @
       (if ai s \<and> recognition s then List.map_filter acceptedFinal evs else []) \<and>
   map requestKey (requests (run s evs)) =
     map requestKey (requests s) @
       (if ai s \<and> recognition s then List.map_filter acceptedFinal evs else [])"
proof (induction evs arbitrary: s)
  case Nil
  then show ?case by (simp add: List.map_filter_simps)
next
  case (Cons e es)
  have c: "ai (step s e) = ai s" "recognition (step s e) = recognition s"
    using step_consts[of s e] by simp_all
  from Cons[of "step s e"] step_keys[of s e] show ?case
    by (cases "acceptedFinal e") (simp_all add: c)
qed

text \<open>
  The claim C4 as it is written fails twice: while listening, a result event whose final
  transcript is a single space adds no entry to the log and issues no request, because
  \<open>handleTranslation\<close> returns at once on the empty trimmed text; and without an API key
  it returns at once on any text.
\<close>

theorem C4_counterexample:
  "Listening listening0 \<and> ai listening0 \<and>
   log (step listening0 (onFinal 1000 (js '' ''))) = log listening0 \<and>
   requests (step listening0 (onFinal 1000 (js '' ''))) = requests listening0 \<and>
   Listening listeningNoKey \<and>
   log (step listeningNoKey (onFinal 1000 (js ''A''))) = log listeningNoKey \<and>
   requests (step listeningNoKey (onFinal 1000 (js ''A''))) = requests listeningNoKey"
  by (simp add: Listening_def listening0_eq listeningNoKey_eq onFinal_def handleResult_def
      trim_letter handleTranslation_blank handleTranslation_unconfigured)

text \<open>
  C4, amended. Run any sequence of events. With the recogniser present and the translation
  client configured, the identifiers and texts of the log at the end are those at the
  beginning followed by one entry for each result event whose final transcript is not blank,
  in the order the events arrived, with the clock reading and the trimmed text of the
  event; successes and failures of translations among the events change neither. The
  requests issued during the run are one for each such event, in the same order, each for
  the entry of its event. With the client not configured, or without a recogniser, the run
  adds no entry and issues no request.
\<close>

theorem C4_one_entry_per_final:
  "map entryKey (log (run s evs)) =
     map entryKey (log s) @
       (if ai s \<and> recognition s then List.map_filter acceptedFinal evs else []) \<and>
   map requestKey (requests (run s evs)) =
     map requestKey (requests s) @
       (if ai s \<and> recognition s then List.map_filter acceptedFinal evs else []) \<and>
   length (log (run s evs)) =
     length (log s) +
       (if ai s \<and> recognition s then length (List.map_filter acceptedFinal evs) else 0)"
proof -
  note k = run_keys[of s evs]
  from k have "length (map entryKey (log (run s evs))) =
      length (map entryKey (log s) @
        (if ai s \<and> recognition s then List.map_filter acceptedFinal evs else []))"
    by simp
  then have "length (log (run s evs)) =
     length (log s) +
       (if ai s \<and> recognition s then length (List.map_filter acceptedFinal evs) else 0)"
    by simp
  with k show ?thesis by simp
qed

theorem C4_witness:
  "map entryKey (log (run listening0
     [onFinal 1000 (js ''A''), onFinal 1001 (js ''B''), TranslationResolved 1 (js ''tB''),
      Render, onFinal 1002 (js '' ''), TranslationResolved 0 (js ''tA'')])) =
     [(1000, js ''A''), (1001, js ''B'')] \<and>
   map requestKey (requests (run listening0
     [onFinal 1000 (js ''A''), onFinal 1001 (js ''B''), TranslationResolved 1 (js ''tB''),
      Render, onFinal 1002 (js '' ''), TranslationResolved 0 (js ''tA'')])) =
     [(1000, js ''A''), (1001, js ''B'')] \<and>
   log (run listeningNoKey [onFinal 1000 (js ''A''), onFinal 1001 (js ''B'')]) = [] \<and>
   requests (run listeningNoKey [onFinal 1000 (js ''A''), onFinal 1001 (js ''B'')]) = []"
proof -
  define evs where
    "evs = [onFinal 1000 (js ''A''), onFinal 1001 (js ''B''),
            TranslationResolved 1 (js ''tB''), Render, onFinal 1002 (js '' ''),
            TranslationResolved 0 (js ''tA'')]"
  define evs' where "evs' = [onFinal 1000 (js ''A''), onFinal 1001 (js ''B'')]"
  have a: "ai listening0" "recognition listening0" "\<not> ai listeningNoKey"
    by (simp_all add: listening0_eq listeningNoKey_eq)
  have f: "List.map_filter acceptedFinal evs = [(1000, js ''A''), (1001, js ''B'')]"
    by (simp add: evs_def List.map_filter_simps acceptedFinal_def onFinal_def trim_letter)
  have l: "log listening0 = []" "requests listening0 = []"
    "log listeningNoKey = []" "requests listeningNoKey = []"
    by (simp_all add: listening0_eq listeningNoKey_eq)
  have 1: "map entryKey (log (run listening0 evs)) = [(1000, js ''A''), (1001, js ''B'')] \<and>
        map requestKey (requests (run listening0 evs)) = [(1000, js ''A''), (1001, js ''B'')]"
    using C4_one_entry_per_final[of listening0 evs] by (simp add: f l a)
  have 2: "log (run listeningNoKey evs') = [] \<and> requests (run listeningNoKey evs') = []"
    using C4_one_entry_per_final[of listeningNoKey evs'] by (simp add: l a)
  from 1 2 show ?thesis by (simp add: evs_def evs'_def)
qed

subsection \<open>Stopping and finalizing\<close>

lemma Idle_stop: "Idle (stopListeningAndRecording s)"
  by (simp add: Idle_def stopListeningAndRecording_def Let_def)

lemma Idle_step: "Idle s \<Longrightarrow> \<not> grants e \<Longrightarrow> Idle (step s e)"
proof (cases e)
  case (MediaResolved k out)
  then show "Idle s \<Longrightarrow> \<not> grants e \<Longrightarrow> Idle (step s e)"
    by (cases out) (auto simp: grants_def Idle_def startResume_def startCatch_def)
next
  case (RecResult now i rs)
  then show "Idle s \<Longrightarrow> \<not> grants e \<Longrightarrow> Idle (step s e)"
    by (auto simp: Idle_def handleResult_def handleTranslation_consts Let_def
        split: prod.splits)
next
  case ClickMic
  then show "Idle s \<Longrightarrow> \<not> grants e \<Longrightarrow> Idle (step s e)"
    using Idle_stop[of "s\<lparr>intentionalStop := True\<rparr>"]
    by (auto simp: Idle_def handleListenToggle_def startListeningAndRecording_def)
next
  case (RecError kind)
  then show "Idle s \<Longrightarrow> \<not> grants e \<Longrightarrow> Idle (step s e)"
    using Idle_stop[of "s\<lparr>error := Some (js ''Speech recognition error: '' @ kind)\<rparr>"]
    by (auto simp: handleError_def)
next
  case (RecEnd startThrows)
  then show "Idle s \<Longrightarrow> \<not> grants e \<Longrightarrow> Idle (step s e)"
    using Idle_stop[of s] by (auto simp: Idle_def handleEnd_def)
qed (auto simp: Idle_def render_def translationSucceeded_def translationFailed_def
      recorderOnstop_def recorderOndataavailable_def onloadedmetadata_def Let_def
      split: option.splits)

lemma Idle_run: "Idle s \<Longrightarrow> \<forall>e \<in> set evs. \<not> grants e \<Longrightarrow> Idle (run s evs)"
  by (induction evs arbitrary: s) (auto intro: Idle_step)

text \<open>
  Stopping a recorder that records, then its \<open>stop\<close> event, then the metadata of the clip:
  the chunks gathered so far become one recording, the chunk buffer is emptied, and the
  stream in \<open>streamRef\<close> is released.
\<close>

lemma stop_finalizes:
  assumes "mediaRecorderRef s = Some RecRecording"
  shows "mediaRecorderRef (stopListeningAndRecording s) = Some RecInactive"
    and "onstopQueued (stopListeningAndRecording s) = Suc (onstopQueued s)"
    and "pendingClips (run (stopListeningAndRecording s) [RecorderStopped]) =
           pendingClips s @ [audioChunksRef s]"
    and "audioChunksRef (run (stopListeningAndRecording s) [RecorderStopped]) = []"
    and "streamRef (run (stopListeningAndRecording s) [RecorderStopped]) = None"
    and "mic (run (stopListeningAndRecording s) [RecorderStopped]) =
           (case streamRef s of None \<Rightarrow> mic s
            | Some h \<Rightarrow> if h < length (mic s) then (mic s)[h := False] else mic s)"
    and "onstopQueued (run (stopListeningAndRecording s) [RecorderStopped]) = onstopQueued s"
  using assms
  by (auto simp: stopListeningAndRecording_def recorderOnstop_def stopTracks_def Let_def
      split: option.splits)

lemma stop_records:
  assumes "mediaRecorderRef s = Some RecRecording"
  shows "recordings (run (stopListeningAndRecording s)
           [RecorderStopped, LoadedMetadata (length (pendingClips s)) now]) =
           recordings s @ [\<lparr>recId = now, blob = audioChunksRef s\<rparr>] \<and>
         pendingClips (run (stopListeningAndRecording s)
           [RecorderStopped, LoadedMetadata (length (pendingClips s)) now]) = pendingClips s"
  using assms
  by (auto simp: stopListeningAndRecording_def recorderOnstop_def onloadedmetadata_def
      removeNth_def stopTracks_def Let_def split: option.splits)

subsection \<open>Errors of the recogniser\<close>

text \<open>
  C8. While listening, the error \<open>no-speech\<close> leaves the whole state as it is: no message,
  the session goes on. Any other kind sets the message to
  \<open>Speech recognition error: \<close> followed by the kind, stops the recogniser, clears
  \<open>isListening\<close> and stops the recorder. The recorder is finalized: when its \<open>stop\<close>
  event is delivered the chunks gathered so far become a clip, the chunk buffer is emptied
  and the stream in \<open>streamRef\<close> is released, and when the clip's metadata is loaded
  exactly one recording, made of those chunks, is added. Listening stays stopped and the
  recorder stays stopped through every later sequence of events, renders or none among
  them, that grants no new stream.
\<close>

theorem C8_recognition_error:
  "Listening s \<Longrightarrow>
     step s (RecError (js ''no-speech'')) = s \<and>
     (kind \<noteq> js ''no-speech'' \<longrightarrow>
        error (step s (RecError kind)) = Some (js ''Speech recognition error: '' @ kind) \<and>
        \<not> isListening (step s (RecError kind)) \<and>
        mediaRecorderRef (step s (RecError kind)) = Some RecInactive \<and>
        onstopQueued (step s (RecError kind)) = Suc (onstopQueued s) \<and>
        engineCalls (step s (RecError kind)) = engineCalls s @ [RecStop] \<and>
        pendingClips (run s [RecError kind, RecorderStopped]) =
          pendingClips s @ [audioChunksRef s] \<and>
        audioChunksRef (run s [RecError kind, RecorderStopped]) = [] \<and>
        streamRef (run s [RecError kind, RecorderStopped]) = None \<and>
        mic (run s [RecError kind, RecorderStopped]) =
          (case streamRef s of None \<Rightarrow> mic s
           | Some h \<Rightarrow> if h < length (mic s) then (mic s)[h := False] else mic s) \<and>
        onstopQueued (run s [RecError kind, RecorderStopped]) = onstopQueued s \<and>
        recordings (run s
          [RecError kind, RecorderStopped, LoadedMetadata (length (pendingClips s)) now]) =
          recordings s @ [\<lparr>recId = now, blob = audioChunksRef s\<rparr>] \<and>
        pendingClips (run s
          [RecError kind, RecorderStopped, LoadedMetadata (length (pendingClips s)) now]) =
          pendingClips s \<and>
        ((\<forall>e \<in> set evs. \<not> grants e) \<longrightarrow>
           \<not> isListening (run s (RecError kind # evs)) \<and>
           mediaRecorderRef (run s (RecError kind # evs)) = Some RecInactive))"
proof -
  assume l: "Listening s"
  define s' where "s' = s\<lparr>error := Some (js ''Speech recognition error: '' @ kind)\<rparr>"
  define t where "t = stopListeningAndRecording s'"
  have r: "mediaRecorderRef s' = Some RecRecording"
    using l by (simp add: s'_def Listening_def)
  have f: "pendingClips s' = pendingClips s" "audioChunksRef s' = audioChunksRef s"
    "streamRef s' = streamRef s" "mic s' = mic s" "onstopQueued s' = onstopQueued s"
    "recordings s' = recordings s"
    by (simp_all add: s'_def)
  have n: "step s (RecError (js ''no-speech'')) = s"
    by (simp add: handleError_def)
  have h: "error t = Some (js ''Speech recognition error: '' @ kind)"
    "\<not> isListening t" "engineCalls t = engineCalls s @ [RecStop]"
    using l by (simp_all add: t_def s'_def Listening_def stopListeningAndRecording_def Let_def)
  have keep: "mediaRecorderRef (run u evs) = Some RecInactive"
    if "mediaRecorderRef u = Some RecInactive" "\<forall>e \<in> set evs. \<not> grants e" for u
    using that
  proof (induction evs arbitrary: u)
    case Nil
    then show ?case by simp
  next
    case (Cons a as)
    have "mediaRecorderRef (step u a) = Some RecInactive"
    proof (cases a)
      case (MediaResolved k out)
      with Cons.prems show ?thesis
        by (cases out) (auto simp: grants_def startResume_def startCatch_def)
    next
      case (RecResult now i rs)
      with Cons.prems show ?thesis
        by (auto simp: handleResult_def handleTranslation_consts Let_def split: prod.splits)
    qed (use Cons.prems in \<open>auto simp: render_def handleListenToggle_def
          startListeningAndRecording_def stopListeningAndRecording_def handleError_def
          handleEnd_def translationSucceeded_def translationFailed_def recorderOnstop_def
          recorderOndataavailable_def onloadedmetadata_def Let_def split: option.splits\<close>)
    with Cons show ?case by simp
  qed
  have d: "\<not> isListening (run t evs) \<and> mediaRecorderRef (run t evs) = Some RecInactive"
    if g: "\<forall>e \<in> set evs. \<not> grants e"
  proof -
    have "Idle (run t evs)"
      unfolding t_def using Idle_run[OF Idle_stop g] .
    moreover have "mediaRecorderRef t = Some RecInactive"
      unfolding t_def using stop_finalizes(1)[OF r] .
    ultimately show ?thesis
      using keep[OF _ g, of t] by (simp add: Idle_def)
  qed
  note fin = stop_finalizes[OF r, folded t_def, unfolded f]
  note rec = stop_records[OF r, of now, folded t_def, unfolded f]
  have "error (step s (RecError kind)) = Some (js ''Speech recognition error: '' @ kind) \<and>
        \<not> isListening (step s (RecError kind)) \<and>
        mediaRecorderRef (step s (RecError kind)) = Some RecInactive \<and>
        onstopQueued (step s (RecError kind)) = Suc (onstopQueued s) \<and>
        engineCalls (step s (RecError kind)) = engineCalls s @ [RecStop] \<and>
        pendingClips (run s [RecError kind, RecorderStopped]) =
          pendingClips s @ [audioChunksRef s] \<and>
        audioChunksRef (run s [RecError kind, RecorderStopped]) = [] \<and>
        streamRef (run s [RecError kind, RecorderStopped]) = None \<and>
        mic (run s [RecError kind, RecorderStopped]) =
          (case streamRef s of None \<Rightarrow> mic s
           | Some h \<Rightarrow> if h < length (mic s) then (mic s)[h := False] else mic s) \<and>
        onstopQueued (run s [RecError kind, RecorderStopped]) = onstopQueued s \<and>
        recordings (run s
          [RecError kind, RecorderStopped, LoadedMetadata (length (pendingClips s)) now]) =
          recordings s @ [\<lparr>recId = now, blob = audioChunksRef s\<rparr>] \<and>
        pendingClips (run s
          [RecError kind, RecorderStopped, LoadedMetadata (length (pendingClips s)) now]) =
          pendingClips s \<and>
        ((\<forall>e \<in> set evs. \<not> grants e) \<longrightarrow>
           \<not> isListening (run s (RecError kind # evs)) \<and>
           mediaRecorderRef (run s (RecError kind # evs)) = Some RecInactive)"
    if k: "kind \<noteq> js ''no-speech''"
  proof -
    have st: "step s (RecError kind) = t"
      using l k by (simp add: t_def s'_def Listening_def handleError_def)
    have rn: "run s (RecError kind # xs) = run t xs" for xs
      by (simp only: run.simps st)
    show ?thesis
      unfolding rn st using h fin rec d by blast
  qed
  with n show ?thesis by blast
qed

theorem C8_witness:
  "Listening listening0 \<and>
   step listening0 (RecError (js ''no-speech'')) = listening0 \<and>
   js ''network'' \<noteq> js ''no-speech'' \<and>
   error (step listening0 (RecError (js ''network''))) =
     Some (js ''Speech recognition error: network'') \<and>
   \<not> isListening (step listening0 (RecError (js ''network''))) \<and>
   mediaRecorderRef (step listening0 (RecError (js ''network''))) = Some RecInactive \<and>
   onstopQueued (step listening0 (RecError (js ''network''))) = 1 \<and>
   mic (run listening0 [RecError (js ''network''), RecorderStopped]) = [False] \<and>
   recordings (run listening0
     [RecError (js ''network''), RecorderStopped, LoadedMetadata 0 2000]) =
     [\<lparr>recId = 2000, blob = []\<rparr>] \<and>
   \<not> grants (RecEnd False) \<and> \<not> grants Render \<and> \<not> grants ClickLang \<and>
   \<not> isListening (run listening0 [RecError (js ''network''), RecEnd False, Render, ClickLang])"
proof -
  have l: "Listening listening0"
    by (simp add: Listening_def listening0_eq)
  have q: "onstopQueued listening0 = 0" "streamRef listening0 = Some 0"
    "mic listening0 = [True]" "pendingClips listening0 = []" "recordings listening0 = []"
    "audioChunksRef listening0 = []"
    by (simp_all add: listening0_eq)
  have k: "js ''network'' \<noteq> js ''no-speech''"
    by (simp add: js_def)
  have g: "\<forall>e \<in> set [RecEnd False, Render, ClickLang]. \<not> grants e"
    by (simp add: grants_def)
  have m: "js ''Speech recognition error: '' @ js ''network'' =
      js ''Speech recognition error: network''"
    by (simp add: js_def)
  have g': "\<not> grants (RecEnd False) \<and> \<not> grants Render \<and> \<not> grants ClickLang"
    by (simp add: grants_def)
  show ?thesis
    using C8_recognition_error[OF l, of "js ''network''" 2000
        "[RecEnd False, Render, ClickLang]"] l k g g'
    by (simp add: q m del: run.simps step.simps)
qed

subsection \<open>Stopping while idle\<close>

lemma stop_idle:
  "Idle s \<Longrightarrow>
     stopListeningAndRecording s =
       s\<lparr>engineCalls := (if recognition s then engineCalls s @ [RecStop] else engineCalls s),
         intentionalStop := False\<rparr>"
  by (cases s) (simp add: Idle_def stopListeningAndRecording_def Let_def)

text \<open>
  C9. Stopping while idle calls \<open>stop()\<close> on the recogniser and clears the intentional-stop
  flag, and changes nothing else: the recordings, the clips and \<open>stop\<close> events on their
  way to become recordings, and the error message stay as they are. After any stop the
  component is idle, so a second stop adds no recording and no error to what the first did.
\<close>

theorem C9_stop_idempotent:
  "(Idle s \<longrightarrow>
      stopListeningAndRecording s =
        s\<lparr>engineCalls := (if recognition s then engineCalls s @ [RecStop] else engineCalls s),
          intentionalStop := False\<rparr> \<and>
      recordings (stopListeningAndRecording s) = recordings s \<and>
      pendingClips (stopListeningAndRecording s) = pendingClips s \<and>
      onstopQueued (stopListeningAndRecording s) = onstopQueued s \<and>
      error (stopListeningAndRecording s) = error s) \<and>
   Idle (stopListeningAndRecording s) \<and>
   recordings (stopListeningAndRecording (stopListeningAndRecording s)) =
     recordings (stopListeningAndRecording s) \<and>
   pendingClips (stopListeningAndRecording (stopListeningAndRecording s)) =
     pendingClips (stopListeningAndRecording s) \<and>
   onstopQueued (stopListeningAndRecording (stopListeningAndRecording s)) =
     onstopQueued (stopListeningAndRecording s) \<and>
   error (stopListeningAndRecording (stopListeningAndRecording s)) =
     error (stopListeningAndRecording s)"
proof -
  have "Idle s \<longrightarrow>
      recordings (stopListeningAndRecording s) = recordings s \<and>
      pendingClips (stopListeningAndRecording s) = pendingClips s \<and>
      onstopQueued (stopListeningAndRecording s) = onstopQueued s \<and>
      error (stopListeningAndRecording s) = error s"
    by (simp add: stop_idle)
  moreover have
    "recordings (stopListeningAndRecording (stopListeningAndRecording s)) =
       recordings (stopListeningAndRecording s) \<and>
     pendingClips (stopListeningAndRecording (stopListeningAndRecording s)) =
       pendingClips (stopListeningAndRecording s) \<and>
     onstopQueued (stopListeningAndRecording (stopListeningAndRecording s)) =
       onstopQueued (stopListeningAndRecording s) \<and>
     error (stopListeningAndRecording (stopListeningAndRecording s)) =
       error (stopListeningAndRecording s)"
    by (simp add: stop_idle[OF Idle_stop])
  ultimately show ?thesis
    using stop_idle[of s] Idle_stop[of s] by blast
qed

theorem C9_witness:
  "Idle (init True True) \<and>
   recordings (stopListeningAndRecording (init True True)) = [] \<and>
   pendingClips (stopListeningAndRecording (init True True)) = [] \<and>
   onstopQueued (stopListeningAndRecording (init True True)) = 0 \<and>
   error (stopListeningAndRecording (init True True)) = None \<and>
   onstopQueued (stopListeningAndRecording (stopListeningAndRecording listening0)) = 1"
proof -
  have i: "Idle (init True True)"
    by (simp add: Idle_def init_def)
  have v: "recordings (init True True) = []" "pendingClips (init True True) = []"
    "onstopQueued (init True True) = 0" "error (init True True) = None"
    by (simp_all add: init_def)
  have q: "onstopQueued (stopListeningAndRecording listening0) = 1"
    by (simp add: listening0_eq stopListeningAndRecording_def Let_def)
  show ?thesis
    using C9_stop_idempotent[of "init True True"] C9_stop_idempotent[of listening0] i v q
    by simp
qed

subsection \<open>The end of a recognition session\<close>

lemma lastStart_append_start: "lastStart (cs @ [RecStart l]) = Some (RecStart l)"
  by (induction cs) simp_all

text \<open>
  The claim C6 as it is written fails: in continuous mode, with no intentional stop, the
  session still finalizes as a stop when \<open>recognition.start()\<close> throws on the restart.
\<close>

theorem C6_counterexample:
  "Listening listeningC \<and> \<not> intentionalStop listeningC \<and> mode listeningC = Continuous \<and>
   \<not> isListening (step listeningC (RecEnd True)) \<and>
   mediaRecorderRef (step listeningC (RecEnd True)) = Some RecInactive \<and>
   onstopQueued (step listeningC (RecEnd True)) = Suc (onstopQueued listeningC) \<and>
   engineCalls (step listeningC (RecEnd True)) = engineCalls listeningC @ [RecStop]"
  by (simp add: Listening_def listeningC_eq handleEnd_def stopListeningAndRecording_def
      Let_def)

text \<open>
  C6, amended. The session ends while listening; the recogniser's handlers in force are
  those of the current \<open>isListening\<close> and \<open>mode\<close>, and \<open>recognition.lang\<close> is still the
  language \<open>l\<close> the session was started with. With no intentional stop and in continuous
  mode, when \<open>recognition.start()\<close> does not throw, the only change is that the recogniser is
  started again, with the same language \<open>l\<close>: \<open>isListening\<close> stays set and the recorder
  keeps recording into the same chunks, no clip is made. When \<open>recognition.start()\<close>
  throws there, or when the stop was intentional, or in turn-taking mode, the session
  finalizes as a stop: the recogniser is stopped, \<open>isListening\<close> is cleared, no error
  message is set, and the recorder is stopped and finalized into exactly one recording made
  of the chunks gathered so far, with the stream in \<open>streamRef\<close> released.
\<close>

theorem C6_session_end:
  "Listening s \<Longrightarrow> registeredCurrent s \<Longrightarrow>
   lastStart (engineCalls s) = Some (RecStart l) \<Longrightarrow> recognitionLang s = l \<Longrightarrow>
     (\<not> intentionalStop s \<and> mode s = Continuous \<longrightarrow>
        step s (RecEnd False) = s\<lparr>engineCalls := engineCalls s @ [RecStart l]\<rparr> \<and>
        lastStart (engineCalls (step s (RecEnd False))) = lastStart (engineCalls s)) \<and>
     (startThrows \<or> intentionalStop s \<or> mode s = TurnTaking \<longrightarrow>
        \<not> isListening (step s (RecEnd startThrows)) \<and>
        mediaRecorderRef (step s (RecEnd startThrows)) = Some RecInactive \<and>
        onstopQueued (step s (RecEnd startThrows)) = Suc (onstopQueued s) \<and>
        engineCalls (step s (RecEnd startThrows)) = engineCalls s @ [RecStop] \<and>
        error (step s (RecEnd startThrows)) = error s \<and>
        pendingClips (run s [RecEnd startThrows, RecorderStopped]) =
          pendingClips s @ [audioChunksRef s] \<and>
        audioChunksRef (run s [RecEnd startThrows, RecorderStopped]) = [] \<and>
        streamRef (run s [RecEnd startThrows, RecorderStopped]) = None \<and>
        mic (run s [RecEnd startThrows, RecorderStopped]) =
          (case streamRef s of None \<Rightarrow> mic s
           | Some h \<Rightarrow> if h < length (mic s) then (mic s)[h := False] else mic s) \<and>
        recordings (run s
          [RecEnd startThrows, RecorderStopped, LoadedMetadata (length (pendingClips s)) now]) =
          recordings s @ [\<lparr>recId = now, blob = audioChunksRef s\<rparr>])"
proof -
  assume l: "Listening s" and c: "registeredCurrent s"
    and a: "lastStart (engineCalls s) = Some (RecStart l)" and g: "recognitionLang s = l"
  define t where "t = stopListeningAndRecording s"
  have r: "mediaRecorderRef s = Some RecRecording"
    using l by (simp add: Listening_def)
  have v: "cIsListening (registered s)" "cMode (registered s) = mode s" "recognition s"
    using l c by (simp_all add: Listening_def registeredCurrent_def)
  have h: "\<not> isListening t" "engineCalls t = engineCalls s @ [RecStop]" "error t = error s"
    using l by (simp_all add: t_def Listening_def stopListeningAndRecording_def Let_def)
  note fin = stop_finalizes[OF r, folded t_def]
  note rec = stop_records[OF r, of now, folded t_def]
  have restart: "step s (RecEnd False) = s\<lparr>engineCalls := engineCalls s @ [RecStart l]\<rparr> \<and>
        lastStart (engineCalls (step s (RecEnd False))) = lastStart (engineCalls s)"
    if "\<not> intentionalStop s \<and> mode s = Continuous"
    using that v g a by (simp add: handleEnd_def lastStart_append_start)
  have stop: "\<not> isListening (step s (RecEnd startThrows)) \<and>
        mediaRecorderRef (step s (RecEnd startThrows)) = Some RecInactive \<and>
        onstopQueued (step s (RecEnd startThrows)) = Suc (onstopQueued s) \<and>
        engineCalls (step s (RecEnd startThrows)) = engineCalls s @ [RecStop] \<and>
        error (step s (RecEnd startThrows)) = error s \<and>
        pendingClips (run s [RecEnd startThrows, RecorderStopped]) =
          pendingClips s @ [audioChunksRef s] \<and>
        audioChunksRef (run s [RecEnd startThrows, RecorderStopped]) = [] \<and>
        streamRef (run s [RecEnd startThrows, RecorderStopped]) = None \<and>
        mic (run s [RecEnd startThrows, RecorderStopped]) =
          (case streamRef s of None \<Rightarrow> mic s
           | Some h \<Rightarrow> if h < length (mic s) then (mic s)[h := False] else mic s) \<and>
        recordings (run s
          [RecEnd startThrows, RecorderStopped, LoadedMetadata (length (pendingClips s)) now]) =
          recordings s @ [\<lparr>recId = now, blob = audioChunksRef s\<rparr>]"
    if w: "startThrows \<or> intentionalStop s \<or> mode s = TurnTaking"
  proof -
    have st: "step s (RecEnd startThrows) = t"
      using w v by (auto simp: t_def handleEnd_def)
    have rn: "run s (RecEnd startThrows # xs) = run t xs" for xs
      by (simp only: run.simps st)
    show ?thesis
      unfolding rn st using h fin rec by blast
  qed
  from restart stop show ?thesis by blast
qed

theorem C6_witness:
  "Listening listeningC \<and> registeredCurrent listeningC \<and>
   lastStart (engineCalls listeningC) = Some (RecStart (Some JaJP)) \<and>
   recognitionLang listeningC = Some JaJP \<and>
   \<not> intentionalStop listeningC \<and> mode listeningC = Continuous \<and>
   isListening (step listeningC (RecEnd False)) \<and>
   mediaRecorderRef (step listeningC (RecEnd False)) = Some RecRecording \<and>
   onstopQueued (step listeningC (RecEnd False)) = 0 \<and>
   pendingClips (step listeningC (RecEnd False)) = [] \<and>
   engineCalls (step listeningC (RecEnd False)) =
     [RecStart (Some JaJP), RecStart (Some JaJP)] \<and>
   \<not> isListening (step listeningC (RecEnd True)) \<and>
   recordings (run listeningC [RecEnd True, RecorderStopped, LoadedMetadata 0 2000]) =
     [\<lparr>recId = 2000, blob = []\<rparr>] \<and>
   Listening listening0 \<and> registeredCurrent listening0 \<and> mode listening0 = TurnTaking \<and>
   \<not> isListening (step listening0 (RecEnd False)) \<and>
   mediaRecorderRef (step listening0 (RecEnd False)) = Some RecInactive \<and>
   error (step listening0 (RecEnd False)) = None \<and>
   mic (run listening0 [RecEnd False, RecorderStopped]) = [False] \<and>
   Listening (listeningC\<lparr>intentionalStop := True\<rparr>) \<and>
   registeredCurrent (listeningC\<lparr>intentionalStop := True\<rparr>) \<and>
   intentionalStop (listeningC\<lparr>intentionalStop := True\<rparr>) \<and>
   \<not> isListening (step (listeningC\<lparr>intentionalStop := True\<rparr>) (RecEnd False)) \<and>
   mediaRecorderRef (step (listeningC\<lparr>intentionalStop := True\<rparr>) (RecEnd False)) =
     Some RecInactive"
proof -
  define sI where "sI = listeningC\<lparr>intentionalStop := True\<rparr>"
  have c: "Listening listeningC" "registeredCurrent listeningC"
    "lastStart (engineCalls listeningC) = Some (RecStart (Some JaJP))"
    "recognitionLang listeningC = Some JaJP"
    "\<not> intentionalStop listeningC" "mode listeningC = Continuous"
    by (simp_all add: Listening_def registeredCurrent_def listeningC_eq)
  have t: "Listening listening0" "registeredCurrent listening0"
    "lastStart (engineCalls listening0) = Some (RecStart (Some JaJP))"
    "recognitionLang listening0 = Some JaJP" "mode listening0 = TurnTaking"
    by (simp_all add: Listening_def registeredCurrent_def listening0_eq)
  have i: "Listening sI" "registeredCurrent sI"
    "lastStart (engineCalls sI) = Some (RecStart (Some JaJP))"
    "recognitionLang sI = Some JaJP" "intentionalStop sI"
    by (simp_all add: sI_def Listening_def registeredCurrent_def listeningC_eq)
  have q: "pendingClips listeningC = []" "recordings listeningC = []"
    "audioChunksRef listeningC = []" "error listening0 = None"
    "streamRef listening0 = Some 0" "mic listening0 = [True]"
    by (simp_all add: listeningC_eq listening0_eq)
  have "step listeningC (RecEnd False) =
          listeningC\<lparr>engineCalls := engineCalls listeningC @ [RecStart (Some JaJP)]\<rparr>"
    using C6_session_end[OF c(1-4), of False 0] c(5,6) by blast
  then have 1: "isListening (step listeningC (RecEnd False)) \<and>
      mediaRecorderRef (step listeningC (RecEnd False)) = Some RecRecording \<and>
      onstopQueued (step listeningC (RecEnd False)) = 0 \<and>
      pendingClips (step listeningC (RecEnd False)) = [] \<and>
      engineCalls (step listeningC (RecEnd False)) =
        [RecStart (Some JaJP), RecStart (Some JaJP)]"
    by (simp add: listeningC_eq)
  have 2: "\<not> isListening (step listeningC (RecEnd True)) \<and>
      recordings (run listeningC [RecEnd True, RecorderStopped, LoadedMetadata 0 2000]) =
        [\<lparr>recId = 2000, blob = []\<rparr>]"
    using C6_session_end[OF c(1-4), of True 2000]
    by (simp add: q del: run.simps step.simps)
  have 3: "\<not> isListening (step listening0 (RecEnd False)) \<and>
      mediaRecorderRef (step listening0 (RecEnd False)) = Some RecInactive \<and>
      error (step listening0 (RecEnd False)) = None \<and>
      mic (run listening0 [RecEnd False, RecorderStopped]) = [False]"
    using C6_session_end[OF t(1-4), of False 0] t(5)
    by (simp add: q del: run.simps step.simps)
  have 4: "\<not> isListening (step sI (RecEnd False)) \<and>
      mediaRecorderRef (step sI (RecEnd False)) = Some RecInactive"
    using C6_session_end[OF i(1-4), of False 0] i(5)
    by (simp del: run.simps step.simps)
  from c t(1,2,5) i(1,2,5) 1 2 3 4 show ?thesis
    unfolding sI_def by (simp del: run.simps step.simps)
qed

text \<open>
  Outside these conditions. When the fatal error and the end of the session are handled with
  no render between them, \<open>handleEnd\<close> still sees the \<open>isListening\<close> of its registration
  and starts the recogniser again; with a render between them it stops. And when a second
  start has set \<open>recognition.lang\<close> and then failed, the restart uses that language and not
  the one of the session that ended.
\<close>

lemma session_end_outside:
  "isListening (run listeningC [RecError (js ''network''), RecEnd False]) = False \<and>
   engineCalls (run listeningC [RecError (js ''network''), RecEnd False]) =
     [RecStart (Some JaJP), RecStop, RecStart (Some JaJP)] \<and>
   engineCalls (run listeningC [RecError (js ''network''), Render, RecEnd False]) =
     [RecStart (Some JaJP), RecStop, RecStop] \<and>
   lastStart (engineCalls languageOverwritten) = Some (RecStart (Some JaJP)) \<and>
   recognitionLang languageOverwritten = Some ZhTW \<and>
   engineCalls (step languageOverwritten (RecEnd False)) =
     [RecStart (Some JaJP), RecStart (Some ZhTW)]"
  by (simp add: listeningC_eq languageOverwritten_def init_def handler_defs Let_def)

subsection \<open>A translation that fails\<close>

lemma updateTranslated_distinct:
  assumes "distinct (map entryId xs)" "i < length xs" "entryId (xs ! i) = a"
  shows "updateTranslated a t xs = xs[i := (xs ! i)\<lparr>translated := Some t\<rparr>]"
proof (rule nth_equalityI)
  show "length (updateTranslated a t xs) = length (xs[i := (xs ! i)\<lparr>translated := Some t\<rparr>])"
    by (simp add: updateTranslated_def)
next
  fix j
  assume "j < length (updateTranslated a t xs)"
  then have j: "j < length xs"
    by (simp add: updateTranslated_def)
  show "updateTranslated a t xs ! j = xs[i := (xs ! i)\<lparr>translated := Some t\<rparr>] ! j"
  proof (cases "j = i")
    case True
    with assms show ?thesis
      by (simp add: updateTranslated_def)
  next
    case False
    have "map entryId xs ! j \<noteq> map entryId xs ! i"
      using nth_eq_iff_index_eq[OF assms(1), of j i] assms(2) j False by simp
    then have "entryId (xs ! j) \<noteq> a"
      using assms(2,3) j by simp
    with j False show ?thesis
      by (simp add: updateTranslated_def)
  qed
qed

text \<open>
  The claim C7 as it is written fails: a translation that fails sets the global error
  message \<open>Failed to translate text.\<close>, here in a session that showed no error.
\<close>

theorem C7_counterexample:
  "error (step listening0 (onFinal 1000 (js ''A''))) = None \<and>
   error (step (step listening0 (onFinal 1000 (js ''A''))) (TranslationRejected 0)) =
     Some (js ''Failed to translate text.'')"
  by (simp add: listening0_eq onFinal_def handleResult_def handleTranslation_def
      translationFailed_def trim_letter Let_def)

text \<open>
  C7, amended. When a request in flight fails and the identifiers in the log are distinct,
  the entry the request was issued for gets the placeholder \<open>Translation failed.\<close> and no
  other entry changes; the session keeps listening: \<open>isListening\<close>, the recorder, the
  streams and the recogniser are as before. The failure does set the global error message
  \<open>Failed to translate text.\<close>.
\<close>

theorem C7_failure_scoped:
  "k < length (requests s) \<Longrightarrow> \<not> settled (requests s ! k) \<Longrightarrow>
   distinct (map entryId (log s)) \<Longrightarrow> i < length (log s) \<Longrightarrow>
   entryId (log s ! i) = reqEntryId (requests s ! k) \<Longrightarrow>
     log (step s (TranslationRejected k)) =
       (log s)[i := (log s ! i)\<lparr>translated := Some (js ''Translation failed.'')\<rparr>] \<and>
     isListening (step s (TranslationRejected k)) = isListening s \<and>
     mediaRecorderRef (step s (TranslationRejected k)) = mediaRecorderRef s \<and>
     onstopQueued (step s (TranslationRejected k)) = onstopQueued s \<and>
     mic (step s (TranslationRejected k)) = mic s \<and>
     engineCalls (step s (TranslationRejected k)) = engineCalls s \<and>
     error (step s (TranslationRejected k)) = Some (js ''Failed to translate text.'')"
  by (simp add: translationFailed_def updateTranslated_distinct)

theorem C7_witness:
  "isListening (run listening0 [onFinal 1000 (js ''A''), onFinal 1001 (js ''B'')]) \<and>
   map translated
     (log (step (run listening0 [onFinal 1000 (js ''A''), onFinal 1001 (js ''B'')])
        (TranslationRejected 1))) = [None, Some (js ''Translation failed.'')] \<and>
   isListening (step (run listening0 [onFinal 1000 (js ''A''), onFinal 1001 (js ''B'')])
        (TranslationRejected 1)) \<and>
   error (step (run listening0 [onFinal 1000 (js ''A''), onFinal 1001 (js ''B'')])
        (TranslationRejected 1)) = Some (js ''Failed to translate text.'')"
proof -
  define s where "s = run listening0 [onFinal 1000 (js ''A''), onFinal 1001 (js ''B'')]"
  have l: "log s =
      [\<lparr>entryId = 1000, original = js ''A'', translated = None, lang = JaJP\<rparr>,
       \<lparr>entryId = 1001, original = js ''B'', translated = None, lang = JaJP\<rparr>]"
    and r: "requests s =
      [\<lparr>reqEntryId = 1000, reqMode = TurnTaking, reqText = js ''A'', reqLang = JaJP,
        settled = False\<rparr>,
       \<lparr>reqEntryId = 1001, reqMode = TurnTaking, reqText = js ''B'', reqLang = JaJP,
        settled = False\<rparr>]"
    and i: "isListening s"
    by (simp_all add: s_def listening0_eq onFinal_def handleResult_def handleTranslation_def
        trim_letter Let_def)
  have h: "1 < length (requests s)" "\<not> settled (requests s ! 1)"
    "distinct (map entryId (log s))" "1 < length (log s)"
    "entryId (log s ! 1) = reqEntryId (requests s ! 1)"
    by (simp_all add: l r)
  have "map translated (log (step s (TranslationRejected 1))) =
          [None, Some (js ''Translation failed.'')] \<and>
        isListening (step s (TranslationRejected 1)) \<and>
        error (step s (TranslationRejected 1)) = Some (js ''Failed to translate text.'')"
    using C7_failure_scoped[OF h] i by (simp add: l)
  with i show ?thesis by (simp add: s_def)
qed

subsection \<open>Identifiers of log entries\<close>

text \<open>
  C1. The identifier of an entry is the reading of \<open>Date.now()\<close> when the entry is
  made. Two final results handled within the same millisecond give two entries with the
  same identifier, and a clock that was set back gives the later entry the smaller one.
\<close>

theorem C1_ids_follow_the_clock:
  "map entryId (log (run listening0 [onFinal 1000 (js ''A''), onFinal 1000 (js ''B'')])) =
     [1000, 1000] \<and>
   map original (log (run listening0 [onFinal 1000 (js ''A''), onFinal 1000 (js ''B'')])) =
     [js ''A'', js ''B''] \<and>
   map entryId (log (run listening0 [onFinal 1000 (js ''A''), onFinal 999 (js ''B'')])) =
     [1000, 999]"
  by (simp add: listening0_eq onFinal_def handleResult_def handleTranslation_def trim_letter
      Let_def)

subsection \<open>Translations that complete out of order\<close>

text \<open>
  With two distinct identifiers, the entries made for two texts hold their own translations
  when the second request is answered before the first.
\<close>

lemma out_of_order_distinct_ids:
  assumes "ai s" "A \<noteq> []" "B \<noteq> []" "a \<noteq> b"
    and "n = length (requests s)"
  shows "drop (length (log s))
           (log (run (handleTranslation b B (handleTranslation a A s))
              [TranslationResolved (Suc n) tB, TranslationResolved n tA])) =
         [\<lparr>entryId = a, original = A, translated = Some tA,
           lang = cCurrentLang (registered s)\<rparr>,
          \<lparr>entryId = b, original = B, translated = Some tB,
           lang = cCurrentLang (registered s)\<rparr>]"
  using assms
  by (simp add: handleTranslation_def translationSucceeded_def updateTranslated_def
      nth_append Let_def)

text \<open>
  C2. \<open>A\<close> and then \<open>B\<close> are submitted within the same millisecond, and the translation of
  \<open>B\<close> arrives before that of \<open>A\<close>. Both entries carry the same identifier, each answer
  overwrites both, and at the end the entry of \<open>B\<close> holds the translation of \<open>A\<close>.
\<close>

theorem C2_same_millisecond:
  "map original (log (run listening0
     [onFinal 1000 (js ''A''), onFinal 1000 (js ''B''), TranslationResolved 1 (js ''tB''),
      TranslationResolved 0 (js ''tA'')])) = [js ''A'', js ''B''] \<and>
   map translated (log (run listening0
     [onFinal 1000 (js ''A''), onFinal 1000 (js ''B''), TranslationResolved 1 (js ''tB''),
      TranslationResolved 0 (js ''tA'')])) = [Some (js ''tA''), Some (js ''tA'')]"
  by (simp add: listening0_eq onFinal_def handleResult_def handleTranslation_def
      translationSucceeded_def updateTranslated_def trim_letter Let_def)

subsection \<open>Acquisition and release of the microphone\<close>

text \<open>
  The exits of a session that went through release its stream: the stop by the button and
  the fatal error of the recogniser, once the recorder's \<open>stop\<close> event is delivered.
\<close>

lemma sibling_paths_release:
  "acquisitions (run (init True True) wholeSession) = 1 \<and>
   releases (run (init True True) wholeSession) = 1 \<and>
   acquisitions (run listening0 [RecError (js ''network''), RecorderStopped]) = 1 \<and>
   releases (run listening0 [RecError (js ''network''), RecorderStopped]) = 1"
  by (simp add: wholeSession_def init_def listening0_eq acquisitions_def releases_def
      handler_defs Let_def)

text \<open>
  C3. Two clicks on the microphone button before \<open>getUserMedia\<close> answers acquire two
  streams that are live together; the stop that follows releases the second one only, and
  the component is idle with two acquisitions and one release, which the cleanup of the
  unmount does not change. A start that fails after its stream was granted sets the error
  message and releases nothing; the session after it replaces \<open>streamRef\<close>, and at its end
  the first stream is still live.
\<close>

theorem C3_streams_left_live:
  "liveStreams (run (init True True) doubleClick) = 2 \<and>
   \<not> isListening (run (init True True) (doubleClick @ stopAndFinalize)) \<and>
   onstopQueued (run (init True True) (doubleClick @ stopAndFinalize)) = 0 \<and>
   acquisitions (run (init True True) (doubleClick @ stopAndFinalize)) = 2 \<and>
   releases (run (init True True) (doubleClick @ stopAndFinalize)) = 1 \<and>
   releases (unmountCleanup (run (init True True) (doubleClick @ stopAndFinalize))) = 1 \<and>
   \<not> isListening (run (init True True) failedStart) \<and>
   acquisitions (run (init True True) failedStart) = 1 \<and>
   releases (run (init True True) failedStart) = 0 \<and>
   \<not> isListening (run (init True True) (failedStart @ wholeSession)) \<and>
   onstopQueued (run (init True True) (failedStart @ wholeSession)) = 0 \<and>
   acquisitions (run (init True True) (failedStart @ wholeSession)) = 2 \<and>
   releases (run (init True True) (failedStart @ wholeSession)) = 1"
  by (simp add: doubleClick_def stopAndFinalize_def failedStart_def wholeSession_def init_def
      liveStreams_def acquisitions_def releases_def unmountCleanup_def handler_defs Let_def)

end
